theory Spec2Isabelle
  imports Main
begin

section \<open>The blog's data\<close>

text \<open>
  Modelled from the spec: the four tables that the views of \<^verbatim>\<open>blog/views.py\<close> read
  and write. The module that declares them (\<^verbatim>\<open>models.py\<close>) is not among the sources,
  so the rows carry the fields that the specification's data model lists and that the
  views touch. A foreign key is the primary key of the row it refers to, as in the
  database; a table is the list of its rows.
\<close>

record User =
  user_id :: nat
  username :: string

record Category =
  category_id :: nat
  slug :: string
  category_is_published :: bool

record Post =
  post_id :: nat
  post_title :: string
  post_body :: string
  post_author :: nat
  post_category :: nat
  pub_date :: int
  post_is_published :: bool

record Comment =
  comment_id :: nat
  comment_body :: string
  comment_author :: nat
  comment_post :: nat
  comment_is_published :: bool
  created_at :: int

record Database =
  users :: "User list"
  categories :: "Category list"
  posts :: "Post list"
  comments :: "Comment list"

text \<open>
  The reverse relations the views use: \<^verbatim>\<open>user.posts\<close>, \<^verbatim>\<open>category.posts\<close> and
  \<^verbatim>\<open>post.comments\<close>.
\<close>

definition User_posts :: "Database \<Rightarrow> User \<Rightarrow> Post list" where
  "User_posts db user = filter (\<lambda>p. post_author p = user_id user) (posts db)"

definition Category_posts :: "Database \<Rightarrow> Category \<Rightarrow> Post list" where
  "Category_posts db category = filter (\<lambda>p. post_category p = category_id category) (posts db)"

definition Post_comments :: "Database \<Rightarrow> Post \<Rightarrow> Comment list" where
  "Post_comments db post = filter (\<lambda>c. comment_post c = post_id post) (comments db)"

section \<open>Requests, responses and exceptions\<close>

text \<open>
  \<^verbatim>\<open>request.user\<close> is \<open>None\<close> for the anonymous user and the logged-in row otherwise.
  \<open>HEAD\<close> is served by the \<open>GET\<close> handler; \<open>PATCH\<close> stands for a verb that none of the
  generic views handles. The \<open>OPTIONS\<close> verb, which reads and writes nothing, is left out.
\<close>

datatype Verb = GET | POST | PUT | DELETE | PATCH

datatype PageArg = PageAbsent | PageLast | PageNumber int | PageNotANumber

record Request =
  request_user :: "User option"
  request_verb :: Verb
  request_page :: PageArg

text \<open>
  The outcome of a model form (\<^verbatim>\<open>PostForm\<close>, \<^verbatim>\<open>CommentForm\<close>; \<^verbatim>\<open>forms.py\<close> is
  not among the sources) on the submitted data: it does not validate, or it validates and
  \<^verbatim>\<open>form.save(commit=False)\<close> returns the unsaved instance. The primary key field of
  that instance counts for nothing: the database assigns it.
\<close>

datatype 'a Form = Invalid | Valid 'a

datatype error = Http404 | PermissionDenied | MultipleObjectsReturned

datatype Target = blog_post_detail nat | blog_profile string | login | get_absolute_url nat

datatype Page =
    DetailPage Post "Comment list"
  | CategoryPage Category "(Post \<times> nat option) list"
  | ProfilePage User "(Post \<times> nat option) list" "nat option"
  | FormPage

datatype Response =
    Render Page
  | Redirect Target
  | NotFound
  | Forbidden
  | MethodNotAllowed
  | ServerError

text \<open>What the framework's handler turns an exception that leaves a view into.\<close>

fun error_response :: "error \<Rightarrow> Response" where
  "error_response Http404 = NotFound"
| "error_response PermissionDenied = Forbidden"
| "error_response MultipleObjectsReturned = ServerError"

definition is_authenticated :: "User option \<Rightarrow> bool" where
  "is_authenticated user = (user \<noteq> None)"

text \<open>
  \<^verbatim>\<open>obj.author == self.request.user\<close>: model instances are equal when their primary
  keys are, and the anonymous user equals no row.
\<close>

definition author_is :: "nat \<Rightarrow> User option \<Rightarrow> bool" where
  "author_is author user = (case user of None \<Rightarrow> False | Some u \<Rightarrow> user_id u = author)"

text \<open>
  \<^verbatim>\<open>get_object_or_404(klass, **kwargs)\<close> is \<^verbatim>\<open>klass.get(**kwargs)\<close> with
  \<^verbatim>\<open>DoesNotExist\<close> turned into \<^verbatim>\<open>Http404\<close>; more than one match raises
  \<^verbatim>\<open>MultipleObjectsReturned\<close>, which nothing catches.
\<close>

definition get_object_or_404 :: "'a list \<Rightarrow> ('a \<Rightarrow> bool) \<Rightarrow> error + 'a" where
  "get_object_or_404 klass kwargs =
     (case filter kwargs klass of
        [] \<Rightarrow> Inl Http404
      | [obj] \<Rightarrow> Inr obj
      | _ \<Rightarrow> Inl MultipleObjectsReturned)"

section \<open>The visibility filter\<close>

text \<open>
  Modelled from the spec: the predicate of \<^verbatim>\<open>get_post_queryset\<close> (\<^verbatim>\<open>utils.py\<close>, not
  among the sources), which the specification describes as combining the category and
  publish flags and the date cutoff: the post's own flag, the flag of its category, and
  a publication date that is not in the future. A post whose category row is missing
  fails it, as it does in the join. The clock reading \<open>now\<close> is an argument.
\<close>

definition published_filter :: "Database \<Rightarrow> int \<Rightarrow> Post \<Rightarrow> bool" where
  "published_filter db now p =
     (post_is_published p
      \<and> list_ex (\<lambda>c. category_id c = post_category p \<and> category_is_published c) (categories db)
      \<and> pub_date p \<le> now)"

text \<open>
  Modelled from the spec: \<^verbatim>\<open>get_post_queryset\<close> of \<^verbatim>\<open>utils.py\<close>, which is not among
  the sources. The views pass it a manager, \<^verbatim>\<open>filter_published\<close> and
  \<^verbatim>\<open>annotate_comments\<close>: the rows of the manager, filtered by the predicate when asked,
  each with the optional comment-count annotation (the number of comments on the post).
\<close>

definition get_post_queryset ::
  "Database \<Rightarrow> int \<Rightarrow> Post list \<Rightarrow> bool \<Rightarrow> bool \<Rightarrow> (Post \<times> nat option) list" where
  "get_post_queryset db now manager filter_published annotate_comments =
     (let queryset = (if filter_published then filter (published_filter db now) manager
                      else manager)
      in map (\<lambda>p. (p, if annotate_comments then Some (length (Post_comments db p)) else None))
           queryset)"

section \<open>Pagination\<close>

text \<open>
  The two list views set \<^verbatim>\<open>paginate_by = 10\<close>. The framework reads the page from the
  request (absent means the first page, \<^verbatim>\<open>last\<close> the last one), answers 404 for
  anything that is not a page of the list, and hands the template that page's slice. An
  empty list has one, empty, page.
\<close>

definition num_pages :: "nat \<Rightarrow> nat" where
  "num_pages count = (max 1 count + 9) div 10"

definition page_number :: "nat \<Rightarrow> PageArg \<Rightarrow> error + int" where
  "page_number count page =
     (case page of
        PageAbsent \<Rightarrow> Inr 1
      | PageLast \<Rightarrow> Inr (int (num_pages count))
      | PageNumber n \<Rightarrow> Inr n
      | PageNotANumber \<Rightarrow> Inl Http404)"

definition paginate_queryset :: "'a list \<Rightarrow> PageArg \<Rightarrow> error + 'a list" where
  "paginate_queryset queryset page =
     (case page_number (length queryset) page of
        Inl e \<Rightarrow> Inl e
      | Inr number \<Rightarrow>
          if number < 1 \<or> int (num_pages (length queryset)) < number then Inl Http404
          else Inr (take 10 (drop (10 * (nat number - 1)) queryset)))"

section \<open>The views that read\<close>

subsection \<open>PostDetailView\<close>

text \<open>
  \<^verbatim>\<open>get_object\<close> looks the post up among all posts and, for a requester who is not
  its author, once more among the published ones. The test \<^verbatim>\<open>if not post\<close> after the
  second lookup never fires (a model instance is truthy), so it has no branch here.
\<close>

definition PostDetailView_get_object ::
  "Database \<Rightarrow> int \<Rightarrow> Request \<Rightarrow> nat \<Rightarrow> error + (Post \<times> nat option)" where
  "PostDetailView_get_object db now request pk =
     (case get_object_or_404 (get_post_queryset db now (posts db) False False)
             (\<lambda>r. post_id (fst r) = pk) of
        Inl e \<Rightarrow> Inl e
      | Inr post \<Rightarrow>
          if \<not> author_is (post_author (fst post)) (request_user request) then
            (case get_object_or_404 (get_post_queryset db now (posts db) True False)
                    (\<lambda>r. post_id (fst r) = pk) of
               Inl e \<Rightarrow> Inl e
             | Inr post' \<Rightarrow> Inr post')
          else Inr post)"

text \<open>The \<^verbatim>\<open>comments\<close> entry that \<^verbatim>\<open>get_context_data\<close> adds to the context.\<close>

definition PostDetailView_get_context_data :: "Database \<Rightarrow> Post \<Rightarrow> Comment list" where
  "PostDetailView_get_context_data db object = filter comment_is_published (Post_comments db object)"

definition PostDetailView_get :: "Database \<Rightarrow> int \<Rightarrow> Request \<Rightarrow> nat \<Rightarrow> Response" where
  "PostDetailView_get db now request pk =
     (case PostDetailView_get_object db now request pk of
        Inl e \<Rightarrow> error_response e
      | Inr post \<Rightarrow> Render (DetailPage (fst post) (PostDetailView_get_context_data db (fst post))))"

subsection \<open>CategoryPostListView\<close>

definition CategoryPostListView_get_category :: "Database \<Rightarrow> string \<Rightarrow> error + Category" where
  "CategoryPostListView_get_category db category_slug =
     get_object_or_404 (categories db) (\<lambda>c. slug c = category_slug \<and> category_is_published c)"

definition CategoryPostListView_get_queryset ::
  "Database \<Rightarrow> int \<Rightarrow> string \<Rightarrow> error + (Post \<times> nat option) list" where
  "CategoryPostListView_get_queryset db now category_slug =
     (case CategoryPostListView_get_category db category_slug of
        Inl e \<Rightarrow> Inl e
      | Inr category \<Rightarrow> Inr (get_post_queryset db now (Category_posts db category) True True))"

definition CategoryPostListView_get ::
  "Database \<Rightarrow> int \<Rightarrow> Request \<Rightarrow> string \<Rightarrow> Response" where
  "CategoryPostListView_get db now request category_slug =
     (case CategoryPostListView_get_queryset db now category_slug of
        Inl e \<Rightarrow> error_response e
      | Inr queryset \<Rightarrow>
          (case paginate_queryset queryset (request_page request) of
             Inl e \<Rightarrow> error_response e
           | Inr object_list \<Rightarrow>
               (case CategoryPostListView_get_category db category_slug of
                  Inl e \<Rightarrow> error_response e
                | Inr category \<Rightarrow> Render (CategoryPage category object_list))))"

subsection \<open>ProfileView\<close>

text \<open>
  The call in \<^verbatim>\<open>get_queryset\<close> leaves \<^verbatim>\<open>annotate_comments\<close> to the default of the
  helper, which the sources do not show: it is the argument \<open>annotate_default\<close>.
\<close>

definition ProfileView_get_user :: "Database \<Rightarrow> string \<Rightarrow> error + User" where
  "ProfileView_get_user db name = get_object_or_404 (users db) (\<lambda>u. username u = name)"

definition ProfileView_get_queryset ::
  "bool \<Rightarrow> Database \<Rightarrow> int \<Rightarrow> Request \<Rightarrow> string \<Rightarrow> error + (Post \<times> nat option) list" where
  "ProfileView_get_queryset annotate_default db now request name =
     (case ProfileView_get_user db name of
        Inl e \<Rightarrow> Inl e
      | Inr user \<Rightarrow>
          Inr (get_post_queryset db now (User_posts db user)
                 (\<not> is_authenticated (request_user request)
                  \<or> \<not> author_is (user_id user) (request_user request))
                 annotate_default))"

text \<open>
  The aggregate of \<^verbatim>\<open>get_context_data\<close>: each post of the user is annotated with the
  count of its comments that pass the filter, and the annotations are summed. The sum
  of no rows is \<^verbatim>\<open>None\<close>.
\<close>

definition Count_annotate :: "Database \<Rightarrow> (Comment \<Rightarrow> bool) \<Rightarrow> Post list \<Rightarrow> (Post \<times> nat) list" where
  "Count_annotate db q manager = map (\<lambda>p. (p, length (filter q (Post_comments db p)))) manager"

definition Sum_aggregate :: "(Post \<times> nat) list \<Rightarrow> nat option" where
  "Sum_aggregate rows = (case rows of [] \<Rightarrow> None | _ \<Rightarrow> Some (sum_list (map snd rows)))"

definition ProfileView_get_context_data :: "Database \<Rightarrow> string \<Rightarrow> error + (User \<times> nat option)" where
  "ProfileView_get_context_data db name =
     (case ProfileView_get_user db name of
        Inl e \<Rightarrow> Inl e
      | Inr user \<Rightarrow>
          Inr (user, Sum_aggregate (Count_annotate db comment_is_published (User_posts db user))))"

definition ProfileView_get ::
  "bool \<Rightarrow> Database \<Rightarrow> int \<Rightarrow> Request \<Rightarrow> string \<Rightarrow> Response" where
  "ProfileView_get annotate_default db now request name =
     (case ProfileView_get_queryset annotate_default db now request name of
        Inl e \<Rightarrow> error_response e
      | Inr queryset \<Rightarrow>
          (case paginate_queryset queryset (request_page request) of
             Inl e \<Rightarrow> error_response e
           | Inr object_list \<Rightarrow>
               (case ProfileView_get_context_data db name of
                  Inl e \<Rightarrow> error_response e
                | Inr (profile, comment_count) \<Rightarrow>
                    Render (ProfilePage profile object_list comment_count))))"

section \<open>Writing to the database\<close>

text \<open>
  \<^verbatim>\<open>instance.save()\<close>: an instance without a primary key is inserted under a fresh
  one; an instance with a primary key replaces the row of that key, or is inserted under
  it when there is no such row. The key is returned, as the instance keeps it.
\<close>

definition next_pk :: "nat list \<Rightarrow> nat" where
  "next_pk pks = Suc (fold max pks 0)"

definition Post_save :: "nat option \<Rightarrow> Post \<Rightarrow> Database \<Rightarrow> nat \<times> Database" where
  "Post_save pk instance db =
     (case pk of
        None \<Rightarrow>
          (let k = next_pk (map post_id (posts db))
           in (k, db\<lparr>posts := posts db @ [instance\<lparr>post_id := k\<rparr>]\<rparr>))
      | Some k \<Rightarrow>
          (k, if list_ex (\<lambda>p. post_id p = k) (posts db)
              then db\<lparr>posts := map (\<lambda>p. if post_id p = k then instance\<lparr>post_id := k\<rparr> else p)
                                   (posts db)\<rparr>
              else db\<lparr>posts := posts db @ [instance\<lparr>post_id := k\<rparr>]\<rparr>))"

definition Comment_save :: "nat option \<Rightarrow> Comment \<Rightarrow> Database \<Rightarrow> nat \<times> Database" where
  "Comment_save pk instance db =
     (case pk of
        None \<Rightarrow>
          (let k = next_pk (map comment_id (comments db))
           in (k, db\<lparr>comments := comments db @ [instance\<lparr>comment_id := k\<rparr>]\<rparr>))
      | Some k \<Rightarrow>
          (k, if list_ex (\<lambda>c. comment_id c = k) (comments db)
              then db\<lparr>comments := map (\<lambda>c. if comment_id c = k then instance\<lparr>comment_id := k\<rparr>
                                             else c)
                                      (comments db)\<rparr>
              else db\<lparr>comments := comments db @ [instance\<lparr>comment_id := k\<rparr>]\<rparr>))"

text \<open>
  \<^verbatim>\<open>instance.delete()\<close>. What happens to the comments of a deleted post is the
  \<^verbatim>\<open>on_delete\<close> of the foreign key, declared in \<^verbatim>\<open>models.py\<close>: it is the argument
  \<open>on_delete\<close>, from the key of the deleted post and the comments table to the new table.
\<close>

definition Post_delete ::
  "(nat \<Rightarrow> Comment list \<Rightarrow> Comment list) \<Rightarrow> Post \<Rightarrow> Database \<Rightarrow> Database" where
  "Post_delete on_delete obj db =
     db\<lparr>posts := filter (\<lambda>p. post_id p \<noteq> post_id obj) (posts db),
        comments := on_delete (post_id obj) (comments db)\<rparr>"

definition Comment_delete :: "Comment \<Rightarrow> Database \<Rightarrow> Database" where
  "Comment_delete obj db = db\<lparr>comments := filter (\<lambda>c. comment_id c \<noteq> comment_id obj) (comments db)\<rparr>"

section \<open>The access mixins\<close>

text \<open>
  The framework's \<^verbatim>\<open>LoginRequiredMixin\<close> and \<^verbatim>\<open>UserPassesTestMixin\<close> wrap
  \<^verbatim>\<open>dispatch\<close>: the first calls \<^verbatim>\<open>handle_no_permission\<close> for an anonymous requester,
  the second when \<^verbatim>\<open>test_func\<close> is false, and each goes on to the next class
  otherwise. The inherited \<^verbatim>\<open>handle_no_permission\<close> raises \<^verbatim>\<open>PermissionDenied\<close> for
  a logged-in requester and redirects an anonymous one to the login page.
\<close>

definition raise :: "error \<Rightarrow> Database \<Rightarrow> Response \<times> Database" where
  "raise e db = (error_response e, db)"

definition AccessMixin_handle_no_permission :: "Request \<Rightarrow> Database \<Rightarrow> Response \<times> Database" where
  "AccessMixin_handle_no_permission request db =
     (if is_authenticated (request_user request) then raise PermissionDenied db
      else (Redirect login, db))"

definition LoginRequiredMixin_dispatch ::
  "Request \<Rightarrow> Response \<times> Database \<Rightarrow> Response \<times> Database \<Rightarrow> Response \<times> Database" where
  "LoginRequiredMixin_dispatch request handle_no_permission super_dispatch =
     (if \<not> is_authenticated (request_user request) then handle_no_permission
      else super_dispatch)"

definition UserPassesTestMixin_dispatch ::
  "Database \<Rightarrow> error + bool \<Rightarrow> Response \<times> Database \<Rightarrow> Response \<times> Database
     \<Rightarrow> Response \<times> Database" where
  "UserPassesTestMixin_dispatch db user_test_result handle_no_permission super_dispatch =
     (case user_test_result of
        Inl e \<Rightarrow> raise e db
      | Inr passed \<Rightarrow> if \<not> passed then handle_no_permission else super_dispatch)"

text \<open>
  \<^verbatim>\<open>AuthorRequiredMixin.test_func\<close>, the class that \<^verbatim>\<open>views.py\<close> defines and the
  four views after it inherit: \<open>get_object\<close> is the outcome of \<^verbatim>\<open>self.get_object()\<close>
  and \<open>author\<close> reads the author of the row.
\<close>

definition AuthorRequiredMixin_test_func ::
  "error + 'a \<Rightarrow> ('a \<Rightarrow> nat) \<Rightarrow> Request \<Rightarrow> error + bool" where
  "AuthorRequiredMixin_test_func get_object author request =
     (case get_object of
        Inl e \<Rightarrow> Inl e
      | Inr obj \<Rightarrow> Inr (author_is (author obj) (request_user request)))"

text \<open>
  \<^verbatim>\<open>get_object\<close> of a view with \<^verbatim>\<open>model = Post\<close> and
  \<^verbatim>\<open>pk_url_kwarg = "post_id"\<close>: the row of that key, or \<^verbatim>\<open>Http404\<close>.
\<close>

definition SingleObjectMixin_get_object :: "Database \<Rightarrow> nat \<Rightarrow> error + Post" where
  "SingleObjectMixin_get_object db pk = get_object_or_404 (posts db) (\<lambda>p. post_id p = pk)"

section \<open>The views that write\<close>

subsection \<open>CreatePostView\<close>

text \<open>
  The create views answer \<open>GET\<close> with the empty form and hand \<open>POST\<close> and \<open>PUT\<close> to the
  form. The branch for an anonymous requester is behind \<^verbatim>\<open>LoginRequiredMixin\<close>: there
  the assignment of the author would raise.
\<close>

definition CreatePostView_form_valid :: "Database \<Rightarrow> User \<Rightarrow> Post \<Rightarrow> Response \<times> Database" where
  "CreatePostView_form_valid db user form_instance =
     (let post = form_instance;
          post = post\<lparr>post_author := user_id user\<rparr>;
          (pk, db') = Post_save None post db
      in (Redirect (blog_profile (username user)), db'))"

definition CreatePostView_dispatch :: "Database \<Rightarrow> Request \<Rightarrow> Post Form \<Rightarrow> Response \<times> Database" where
  "CreatePostView_dispatch db request form =
     LoginRequiredMixin_dispatch request (AccessMixin_handle_no_permission request db)
       (case request_user request of
          None \<Rightarrow> (ServerError, db)
        | Some user \<Rightarrow>
            (case request_verb request of
               GET \<Rightarrow> (Render FormPage, db)
             | POST \<Rightarrow>
                 (case form of
                    Invalid \<Rightarrow> (Render FormPage, db)
                  | Valid instance \<Rightarrow> CreatePostView_form_valid db user instance)
             | PUT \<Rightarrow>
                 (case form of
                    Invalid \<Rightarrow> (Render FormPage, db)
                  | Valid instance \<Rightarrow> CreatePostView_form_valid db user instance)
             | _ \<Rightarrow> (MethodNotAllowed, db)))"

subsection \<open>EditPostView\<close>

text \<open>
  An update view fetches the object again, binds the form to it and saves the form's
  instance under the key of the object. \<^verbatim>\<open>EditPostView\<close> names no success URL, so the
  redirect goes to the saved post's \<^verbatim>\<open>get_absolute_url()\<close>.
\<close>

definition EditPostView_handle_no_permission :: "Database \<Rightarrow> nat \<Rightarrow> Response \<times> Database" where
  "EditPostView_handle_no_permission db pk = (Redirect (blog_post_detail pk), db)"

definition EditPostView_post :: "Database \<Rightarrow> nat \<Rightarrow> Post Form \<Rightarrow> Response \<times> Database" where
  "EditPostView_post db pk form =
     (case SingleObjectMixin_get_object db pk of
        Inl e \<Rightarrow> raise e db
      | Inr object \<Rightarrow>
          (case form of
             Invalid \<Rightarrow> (Render FormPage, db)
           | Valid instance \<Rightarrow>
               (let (k, db') = Post_save (Some (post_id object)) instance db
                in (Redirect (get_absolute_url k), db'))))"

text \<open>The \<open>GET\<close> handler of the edit and delete views of a post: the form of the object.\<close>

definition PostObject_get :: "Database \<Rightarrow> nat \<Rightarrow> Response \<times> Database" where
  "PostObject_get db pk =
     (case SingleObjectMixin_get_object db pk of
        Inl e \<Rightarrow> raise e db
      | Inr object \<Rightarrow> (Render FormPage, db))"

definition EditPostView_dispatch ::
  "Database \<Rightarrow> Request \<Rightarrow> nat \<Rightarrow> Post Form \<Rightarrow> Response \<times> Database" where
  "EditPostView_dispatch db request pk form =
     LoginRequiredMixin_dispatch request (EditPostView_handle_no_permission db pk)
       (UserPassesTestMixin_dispatch db
          (AuthorRequiredMixin_test_func (SingleObjectMixin_get_object db pk) post_author request)
          (EditPostView_handle_no_permission db pk)
          (case request_verb request of
             GET \<Rightarrow> PostObject_get db pk
           | POST \<Rightarrow> EditPostView_post db pk form
           | PUT \<Rightarrow> EditPostView_post db pk form
           | _ \<Rightarrow> (MethodNotAllowed, db)))"

subsection \<open>DeletePostView\<close>

text \<open>
  A delete view shows the confirmation page on \<open>GET\<close> and deletes the object on \<open>POST\<close>
  and \<open>DELETE\<close>. \<^verbatim>\<open>DeletePostView\<close> does not override \<^verbatim>\<open>handle_no_permission\<close>.
\<close>

definition DeletePostView_get_success_url :: "Request \<Rightarrow> Target" where
  "DeletePostView_get_success_url request =
     blog_profile (case request_user request of None \<Rightarrow> [] | Some u \<Rightarrow> username u)"

definition DeletePostView_post ::
  "(nat \<Rightarrow> Comment list \<Rightarrow> Comment list) \<Rightarrow> Database \<Rightarrow> Request \<Rightarrow> nat \<Rightarrow> Response \<times> Database" where
  "DeletePostView_post on_delete db request pk =
     (case SingleObjectMixin_get_object db pk of
        Inl e \<Rightarrow> raise e db
      | Inr object \<Rightarrow>
          (Redirect (DeletePostView_get_success_url request), Post_delete on_delete object db))"

definition DeletePostView_dispatch ::
  "(nat \<Rightarrow> Comment list \<Rightarrow> Comment list) \<Rightarrow> Database \<Rightarrow> Request \<Rightarrow> nat \<Rightarrow> Response \<times> Database" where
  "DeletePostView_dispatch on_delete db request pk =
     LoginRequiredMixin_dispatch request (AccessMixin_handle_no_permission request db)
       (UserPassesTestMixin_dispatch db
          (AuthorRequiredMixin_test_func (SingleObjectMixin_get_object db pk) post_author request)
          (AccessMixin_handle_no_permission request db)
          (case request_verb request of
             GET \<Rightarrow> PostObject_get db pk
           | POST \<Rightarrow> DeletePostView_post on_delete db request pk
           | DELETE \<Rightarrow> DeletePostView_post on_delete db request pk
           | _ \<Rightarrow> (MethodNotAllowed, db)))"

subsection \<open>AddCommentView\<close>

text \<open>
  \<^verbatim>\<open>form_valid\<close> saves the comment itself and then calls the inherited
  \<^verbatim>\<open>form_valid\<close>, whose \<^verbatim>\<open>form.save()\<close> saves the same instance once more, now under
  the key the first save gave it.
\<close>

definition AddCommentView_form_valid ::
  "Database \<Rightarrow> User \<Rightarrow> nat \<Rightarrow> Comment \<Rightarrow> Response \<times> Database" where
  "AddCommentView_form_valid db user pk form_instance =
     (case get_object_or_404 (posts db) (\<lambda>p. post_id p = pk) of
        Inl e \<Rightarrow> raise e db
      | Inr post \<Rightarrow>
          (let comment = form_instance;
               comment = comment\<lparr>comment_post := post_id post\<rparr>;
               comment = comment\<lparr>comment_author := user_id user\<rparr>;
               (k, db') = Comment_save None comment db;
               (k', db'') = Comment_save (Some k) comment db'
           in (Redirect (blog_post_detail pk), db'')))"

definition AddCommentView_dispatch ::
  "Database \<Rightarrow> Request \<Rightarrow> nat \<Rightarrow> Comment Form \<Rightarrow> Response \<times> Database" where
  "AddCommentView_dispatch db request pk form =
     LoginRequiredMixin_dispatch request (AccessMixin_handle_no_permission request db)
       (case request_user request of
          None \<Rightarrow> (ServerError, db)
        | Some user \<Rightarrow>
            (case request_verb request of
               GET \<Rightarrow> (Render FormPage, db)
             | POST \<Rightarrow>
                 (case form of
                    Invalid \<Rightarrow> (Render FormPage, db)
                  | Valid instance \<Rightarrow> AddCommentView_form_valid db user pk instance)
             | PUT \<Rightarrow>
                 (case form of
                    Invalid \<Rightarrow> (Render FormPage, db)
                  | Valid instance \<Rightarrow> AddCommentView_form_valid db user pk instance)
             | _ \<Rightarrow> (MethodNotAllowed, db)))"

subsection \<open>EditCommentView and DeleteCommentView\<close>

text \<open>
  Both views take the comment they act on and the URL they redirect to from
  \<^verbatim>\<open>CommentMixin\<close> of \<^verbatim>\<open>mixins.py\<close>, which is not among the sources. The two are
  arguments: \<open>get_object\<close> is what the mixin resolves the request's target to in a given
  database, \<open>success_url\<close> where it redirects. In the method resolution order of both
  views the framework's access mixin stands before \<^verbatim>\<open>CommentMixin\<close>, so
  \<^verbatim>\<open>handle_no_permission\<close> is the inherited one.
\<close>

definition EditCommentView_post ::
  "(Database \<Rightarrow> error + Comment) \<Rightarrow> Target \<Rightarrow> Database \<Rightarrow> Comment Form \<Rightarrow> Response \<times> Database" where
  "EditCommentView_post get_object success_url db form =
     (case get_object db of
        Inl e \<Rightarrow> raise e db
      | Inr object \<Rightarrow>
          (case form of
             Invalid \<Rightarrow> (Render FormPage, db)
           | Valid instance \<Rightarrow>
               (let (k, db') = Comment_save (Some (comment_id object)) instance db
                in (Redirect success_url, db'))))"

definition CommentMixin_get :: "(Database \<Rightarrow> error + Comment) \<Rightarrow> Database \<Rightarrow> Response \<times> Database" where
  "CommentMixin_get get_object db =
     (case get_object db of
        Inl e \<Rightarrow> raise e db
      | Inr object \<Rightarrow> (Render FormPage, db))"

definition EditCommentView_dispatch ::
  "(Database \<Rightarrow> error + Comment) \<Rightarrow> Target \<Rightarrow> Database \<Rightarrow> Request \<Rightarrow> Comment Form
     \<Rightarrow> Response \<times> Database" where
  "EditCommentView_dispatch get_object success_url db request form =
     LoginRequiredMixin_dispatch request (AccessMixin_handle_no_permission request db)
       (UserPassesTestMixin_dispatch db
          (AuthorRequiredMixin_test_func (get_object db) comment_author request)
          (AccessMixin_handle_no_permission request db)
          (case request_verb request of
             GET \<Rightarrow> CommentMixin_get get_object db
           | POST \<Rightarrow> EditCommentView_post get_object success_url db form
           | PUT \<Rightarrow> EditCommentView_post get_object success_url db form
           | _ \<Rightarrow> (MethodNotAllowed, db)))"

definition DeleteCommentView_post ::
  "(Database \<Rightarrow> error + Comment) \<Rightarrow> Target \<Rightarrow> Database \<Rightarrow> Response \<times> Database" where
  "DeleteCommentView_post get_object success_url db =
     (case get_object db of
        Inl e \<Rightarrow> raise e db
      | Inr object \<Rightarrow> (Redirect success_url, Comment_delete object db))"

definition DeleteCommentView_dispatch ::
  "(Database \<Rightarrow> error + Comment) \<Rightarrow> Target \<Rightarrow> Database \<Rightarrow> Request \<Rightarrow> Response \<times> Database" where
  "DeleteCommentView_dispatch get_object success_url db request =
     LoginRequiredMixin_dispatch request (AccessMixin_handle_no_permission request db)
       (UserPassesTestMixin_dispatch db
          (AuthorRequiredMixin_test_func (get_object db) comment_author request)
          (AccessMixin_handle_no_permission request db)
          (case request_verb request of
             GET \<Rightarrow> CommentMixin_get get_object db
           | POST \<Rightarrow> DeleteCommentView_post get_object success_url db
           | DELETE \<Rightarrow> DeleteCommentView_post get_object success_url db
           | _ \<Rightarrow> (MethodNotAllowed, db)))"

section \<open>A small blog\<close>

text \<open>
  Two users, a published and an unpublished category, four posts and three comments, at
  clock reading 50. Post 1 is public; post 2 is unpublished; post 3 sits in the
  unpublished category; post 4 is dated in the future. Comment 2 is unpublished.
\<close>

definition alice :: User where
  "alice = \<lparr>user_id = 1, username = ''alice''\<rparr>"

definition bob :: User where
  "bob = \<lparr>user_id = 2, username = ''bob''\<rparr>"

definition news :: Category where
  "news = \<lparr>category_id = 1, slug = ''news'', category_is_published = True\<rparr>"

definition drafts :: Category where
  "drafts = \<lparr>category_id = 2, slug = ''drafts'', category_is_published = False\<rparr>"

definition post1 :: Post where
  "post1 = \<lparr>post_id = 1, post_title = ''a'', post_body = ''x'', post_author = 1,
             post_category = 1, pub_date = 10, post_is_published = True\<rparr>"

definition post2 :: Post where
  "post2 = \<lparr>post_id = 2, post_title = ''b'', post_body = ''x'', post_author = 1,
             post_category = 1, pub_date = 10, post_is_published = False\<rparr>"

definition post3 :: Post where
  "post3 = \<lparr>post_id = 3, post_title = ''c'', post_body = ''x'', post_author = 2,
             post_category = 2, pub_date = 10, post_is_published = True\<rparr>"

definition post4 :: Post where
  "post4 = \<lparr>post_id = 4, post_title = ''d'', post_body = ''x'', post_author = 2,
             post_category = 1, pub_date = 100, post_is_published = True\<rparr>"

definition comment1 :: Comment where
  "comment1 = \<lparr>comment_id = 1, comment_body = ''m'', comment_author = 2, comment_post = 1,
                comment_is_published = True, created_at = 20\<rparr>"

definition comment2 :: Comment where
  "comment2 = \<lparr>comment_id = 2, comment_body = ''n'', comment_author = 2, comment_post = 1,
                comment_is_published = False, created_at = 21\<rparr>"

definition comment3 :: Comment where
  "comment3 = \<lparr>comment_id = 3, comment_body = ''o'', comment_author = 1, comment_post = 2,
                comment_is_published = True, created_at = 22\<rparr>"

definition blog :: Database where
  "blog = \<lparr>users = [alice, bob], categories = [news, drafts],
            posts = [post1, post2, post3, post4],
            comments = [comment1, comment2, comment3]\<rparr>"

definition request_of :: "User option \<Rightarrow> Verb \<Rightarrow> Request" where
  "request_of user verb = \<lparr>request_user = user, request_verb = verb, request_page = PageAbsent\<rparr>"

text \<open>The usual \<^verbatim>\<open>on_delete\<close>: the comments of a deleted post go with it.\<close>

definition CASCADE :: "nat \<Rightarrow> Comment list \<Rightarrow> Comment list" where
  "CASCADE pk table = filter (\<lambda>c. comment_post c \<noteq> pk) table"

text \<open>What \<^verbatim>\<open>CommentMixin\<close> would resolve a comment key to, for the examples.\<close>

definition comment_by_pk :: "nat \<Rightarrow> Database \<Rightarrow> error + Comment" where
  "comment_by_pk pk db = get_object_or_404 (comments db) (\<lambda>c. comment_id c = pk)"

section \<open>Lookups, the filter and pagination\<close>

lemmas blog_defs = blog_def alice_def bob_def news_def drafts_def post1_def post2_def post3_def post4_def
  comment1_def comment2_def comment3_def request_of_def

lemma get_object_or_404_Inr:
  "get_object_or_404 klass kwargs = Inr obj \<Longrightarrow> filter kwargs klass = [obj]"
  by (auto simp: get_object_or_404_def split: list.splits)

lemma get_object_or_404_found:
  assumes "get_object_or_404 klass kwargs = Inr obj"
  shows "obj \<in> set klass \<and> kwargs obj"
proof -
  have "filter kwargs klass = [obj]" using assms by (rule get_object_or_404_Inr)
  then have "obj \<in> set (filter kwargs klass)" by simp
  then show ?thesis by simp
qed

lemma get_object_or_404_missing:
  "\<forall>x \<in> set klass. \<not> kwargs x \<Longrightarrow> get_object_or_404 klass kwargs = Inl Http404"
proof -
  assume "\<forall>x \<in> set klass. \<not> kwargs x"
  then have "filter kwargs klass = []" by (simp add: filter_empty_conv)
  then show ?thesis by (simp add: get_object_or_404_def)
qed

lemma filter_key_unique:
  "distinct (map key xs) \<Longrightarrow> x \<in> set xs \<Longrightarrow> filter (\<lambda>y. key y = key x) xs = [x]"
proof (induction xs)
  case Nil
  then show ?case by simp
next
  case (Cons a xs)
  show ?case
  proof (cases "a = x")
    case True
    have "\<forall>y \<in> set xs. key y \<noteq> key x" using Cons.prems(1) True by (auto simp: image_iff)
    then have "filter (\<lambda>y. key y = key x) xs = []" by (simp add: filter_empty_conv)
    then show ?thesis using True by simp
  next
    case False
    then have "x \<in> set xs" using Cons.prems(2) by simp
    moreover have "distinct (map key xs)" using Cons.prems(1) by simp
    ultimately have "filter (\<lambda>y. key y = key x) xs = [x]" by (rule Cons.IH[rotated])
    moreover have "key a \<noteq> key x" using Cons.prems(1) \<open>x \<in> set xs\<close> by (auto simp: image_iff)
    ultimately show ?thesis by simp
  qed
qed

lemma get_object_or_404_unique:
  "distinct (map key xs) \<Longrightarrow> x \<in> set xs \<Longrightarrow> get_object_or_404 xs (\<lambda>y. key y = key x) = Inr x"
  by (simp add: get_object_or_404_def filter_key_unique)

lemma paginate_queryset_subset:
  "paginate_queryset queryset page = Inr object_list \<Longrightarrow> set object_list \<subseteq> set queryset"
proof -
  assume a: "paginate_queryset queryset page = Inr object_list"
  then obtain k where "object_list = take 10 (drop k queryset)"
    by (auto simp: paginate_queryset_def split: sum.splits if_splits)
  then show ?thesis
    using set_take_subset set_drop_subset by fastforce
qed

lemma get_post_queryset_published:
  "r \<in> set (get_post_queryset db now manager True annotate) \<Longrightarrow> published_filter db now (fst r)"
  by (auto simp: get_post_queryset_def)

lemma get_post_queryset_all:
  "fst ` set (get_post_queryset db now manager False annotate) = set manager"
  by (auto simp: get_post_queryset_def image_iff)

lemma error_response_not_Render [simp]: "error_response e \<noteq> Render page"
  by (cases e) simp_all

lemma CategoryPostListView_get_Render:
  assumes "CategoryPostListView_get db now request category_slug = Render page"
  shows "\<exists>queryset object_list category.
           CategoryPostListView_get_queryset db now category_slug = Inr queryset
           \<and> paginate_queryset queryset (request_page request) = Inr object_list
           \<and> CategoryPostListView_get_category db category_slug = Inr category
           \<and> page = CategoryPage category object_list"
  using assms by (auto simp: CategoryPostListView_get_def split: sum.splits)

lemma ProfileView_get_Render:
  assumes "ProfileView_get annotate_default db now request name = Render page"
  shows "\<exists>queryset object_list profile comment_count.
           ProfileView_get_queryset annotate_default db now request name = Inr queryset
           \<and> paginate_queryset queryset (request_page request) = Inr object_list
           \<and> ProfileView_get_context_data db name = Inr (profile, comment_count)
           \<and> page = ProfilePage profile object_list comment_count"
  using assms by (auto simp: ProfileView_get_def split: sum.splits)

lemma CategoryPostListView_get_queryset_published:
  assumes "CategoryPostListView_get_queryset db now category_slug = Inr queryset"
    and "r \<in> set queryset"
  shows "published_filter db now (fst r)"
proof -
  from assms(1) obtain category where
    "queryset = get_post_queryset db now (Category_posts db category) True True"
    by (auto simp: CategoryPostListView_get_queryset_def split: sum.splits)
  with assms(2) show ?thesis by (simp add: get_post_queryset_published)
qed

lemma paginate_queryset_covers:
  assumes "x \<in> set queryset"
  shows "\<exists>n object_list. paginate_queryset queryset (PageNumber n) = Inr object_list
           \<and> x \<in> set object_list"
proof -
  from assms obtain i where i: "i < length queryset" and x: "queryset ! i = x"
    by (auto simp: in_set_conv_nth)
  let ?k = "i div 10"
  let ?n = "int ?k + 1"
  let ?page = "take 10 (drop (10 * ?k) queryset)"
  have le: "?k + 1 \<le> num_pages (length queryset)"
    using i by (simp add: num_pages_def)
  have "\<not> (?n < 1 \<or> int (num_pages (length queryset)) < ?n)"
    using le by simp
  then have pg: "paginate_queryset queryset (PageNumber ?n) = Inr ?page"
    by (simp add: paginate_queryset_def page_number_def nat_add_distrib)
  have split: "10 * ?k + i mod 10 = i" by simp
  have len: "i mod 10 < length (drop (10 * ?k) queryset)"
    using i split by simp arith
  have "(drop (10 * ?k) queryset) ! (i mod 10) = queryset ! (10 * ?k + i mod 10)"
    using i by (simp add: nth_drop)
  then have at: "(drop (10 * ?k) queryset) ! (i mod 10) = x"
    using x split by simp
  have "i mod 10 < length ?page" using len by simp
  moreover have "?page ! (i mod 10) = x" using at by simp
  ultimately have "x \<in> set ?page" by (metis nth_mem)
  with pg show ?thesis by blast
qed

lemma get_post_queryset_unfiltered:
  "get_post_queryset db now manager False False = map (\<lambda>p. (p, None)) manager"
  by (simp add: get_post_queryset_def)

lemma first_lookup_unique:
  assumes "distinct (map post_id (posts db))" and "p \<in> set (posts db)"
  shows "get_object_or_404 (get_post_queryset db now (posts db) False False)
           (\<lambda>r. post_id (fst r) = post_id p) = Inr (p, None)"
proof -
  have "filter (\<lambda>r. post_id (fst r) = post_id p) (map (\<lambda>p. (p, None :: nat option)) (posts db))
          = map (\<lambda>p. (p, None)) (filter (\<lambda>q. post_id q = post_id p) (posts db))"
    by (simp add: filter_map comp_def)
  also have "\<dots> = [(p, None)]" using assms by (simp add: filter_key_unique)
  finally show ?thesis
    by (simp only: get_object_or_404_def get_post_queryset_unfiltered list.case)
qed

lemma same_key_same_row:
  assumes "distinct (map key xs)" and "x \<in> set xs" and "y \<in> set xs" and "key y = key x"
  shows "y = x"
proof -
  have "filter (\<lambda>z. key z = key x) xs = [x]" using assms(1,2) by (rule filter_key_unique)
  moreover have "y \<in> set (filter (\<lambda>z. key z = key x) xs)" using assms(3,4) by simp
  ultimately show ?thesis by simp
qed

lemma ProfileView_get_user_unique:
  assumes "distinct (map username (users db))" and "profile \<in> set (users db)"
  shows "ProfileView_get_user db (username profile) = Inr profile"
  unfolding ProfileView_get_user_def using assms by (rule get_object_or_404_unique)

lemma PostDetailView_get_Render:
  assumes "PostDetailView_get db now request pk = Render page"
  shows "\<exists>post. PostDetailView_get_object db now request pk = Inr post
           \<and> page = DetailPage (fst post) (PostDetailView_get_context_data db (fst post))"
  using assms by (auto simp: PostDetailView_get_def split: sum.splits)

lemma Sum_aggregate_Count_annotate:
  "Sum_aggregate (Count_annotate db q manager)
     = (if manager = [] then None
        else Some (\<Sum>p\<leftarrow>manager. length (filter q (Post_comments db p))))"
  by (cases manager) (simp_all add: Sum_aggregate_def Count_annotate_def comp_def)

section \<open>The author gate and the saves\<close>

lemma raise_db [simp]: "snd (raise e db) = db"
  by (simp add: raise_def)

lemma AccessMixin_handle_no_permission_db [simp]:
  "snd (AccessMixin_handle_no_permission request db) = db"
  by (simp add: AccessMixin_handle_no_permission_def)

lemma EditPostView_handle_no_permission_db [simp]:
  "snd (EditPostView_handle_no_permission db pk) = db"
  by (simp add: EditPostView_handle_no_permission_def)

text \<open>The gate of the two mixins: the next class runs only when the test passed.\<close>

lemma author_gate:
  assumes "snd (LoginRequiredMixin_dispatch request denied
                  (UserPassesTestMixin_dispatch db
                     (AuthorRequiredMixin_test_func target author request) denied' inner)) \<noteq> db"
    and "snd denied = db" and "snd denied' = db"
  shows "\<exists>obj. target = Inr obj \<and> author_is (author obj) (request_user request)"
  using assms
  by (auto simp: LoginRequiredMixin_dispatch_def UserPassesTestMixin_dispatch_def
      AuthorRequiredMixin_test_func_def split: if_splits sum.splits)

lemma SingleObjectMixin_get_object_found:
  "SingleObjectMixin_get_object db pk = Inr p \<Longrightarrow> p \<in> set (posts db) \<and> post_id p = pk"
  unfolding SingleObjectMixin_get_object_def by (rule get_object_or_404_found)

lemma SingleObjectMixin_get_object_missing:
  assumes "\<forall>p \<in> set (posts db). post_id p \<noteq> pk"
  shows "SingleObjectMixin_get_object db pk = Inl Http404"
proof -
  from assms have "\<forall>p \<in> set (posts db). \<not> post_id p = pk" by blast
  then show ?thesis
    unfolding SingleObjectMixin_get_object_def by (rule get_object_or_404_missing)
qed

lemma fold_max_ge: "a \<le> fold max xs (a::nat)"
proof (induction xs arbitrary: a)
  case Nil
  show ?case by simp
next
  case (Cons x xs)
  have "a \<le> max x a" by simp
  also have "\<dots> \<le> fold max xs (max x a)" by (rule Cons.IH)
  finally show ?case by simp
qed

lemma fold_max_upper: "x \<in> set xs \<Longrightarrow> x \<le> fold max xs (a::nat)"
proof (induction xs arbitrary: a)
  case Nil
  then show ?case by simp
next
  case (Cons y ys)
  show ?case
  proof (cases "x = y")
    case True
    have "x \<le> max y a" using True by simp
    also have "\<dots> \<le> fold max ys (max y a)" by (rule fold_max_ge)
    finally show ?thesis by simp
  next
    case False
    then have "x \<in> set ys" using Cons.prems by simp
    then have "x \<le> fold max ys (max y a)" by (rule Cons.IH)
    then show ?thesis by simp
  qed
qed

lemma next_pk_fresh: "next_pk pks \<notin> set pks"
proof
  assume "next_pk pks \<in> set pks"
  then have "next_pk pks \<le> fold max pks 0" by (rule fold_max_upper)
  then show False by (simp add: next_pk_def)
qed

text \<open>Saving an instance twice: the second save rewrites the row the first one inserted.\<close>

lemma Comment_save_twice:
  assumes "Comment_save None comment db = (k, db')"
  shows "Comment_save (Some k) comment db' = (k, db')"
    and "db' = db\<lparr>comments := comments db @ [comment\<lparr>comment_id := next_pk (map comment_id (comments db))\<rparr>]\<rparr>"
proof -
  let ?k = "next_pk (map comment_id (comments db))"
  from assms have k: "k = ?k"
    and db': "db' = db\<lparr>comments := comments db @ [comment\<lparr>comment_id := ?k\<rparr>]\<rparr>"
    by (auto simp: Comment_save_def Let_def)
  show "db' = db\<lparr>comments := comments db @ [comment\<lparr>comment_id := ?k\<rparr>]\<rparr>" by (rule db')
  have "?k \<notin> set (map comment_id (comments db))" by (rule next_pk_fresh)
  then have old: "\<forall>c \<in> set (comments db). comment_id c \<noteq> ?k" by (auto simp: image_iff)
  then have "map (\<lambda>c. if comment_id c = ?k then comment\<lparr>comment_id := ?k\<rparr> else c) (comments db)
               = comments db"
    by (simp add: map_idI)
  then show "Comment_save (Some k) comment db' = (k, db')"
    by (simp add: Comment_save_def k db')
qed

lemma AddCommentView_form_valid_ok:
  assumes "get_object_or_404 (posts db) (\<lambda>p. post_id p = pk) = Inr post"
  shows "AddCommentView_form_valid db user pk instance
           = (Redirect (blog_post_detail pk),
              db\<lparr>comments := comments db
                    @ [instance\<lparr>comment_post := pk, comment_author := user_id user,
                               comment_id := next_pk (map comment_id (comments db))\<rparr>]\<rparr>)"
proof -
  let ?comment = "instance\<lparr>comment_post := pk, comment_author := user_id user\<rparr>"
  obtain k db' where s1: "Comment_save None ?comment db = (k, db')" by (cases "Comment_save None ?comment db")
  have pk: "post_id post = pk" using get_object_or_404_found [OF assms] by simp
  show ?thesis
    using assms s1 Comment_save_twice [OF s1] by (simp add: AddCommentView_form_valid_def pk)
qed

lemma AddCommentView_form_valid_missing:
  assumes "get_object_or_404 (posts db) (\<lambda>p. post_id p = pk) = Inl e"
  shows "AddCommentView_form_valid db user pk instance = (error_response e, db)"
  using assms by (simp add: AddCommentView_form_valid_def raise_def)

lemma CreatePostView_form_valid_eq:
  "CreatePostView_form_valid db user instance
     = (Redirect (blog_profile (username user)),
        db\<lparr>posts := posts db
              @ [instance\<lparr>post_author := user_id user,
                         post_id := next_pk (map post_id (posts db))\<rparr>]\<rparr>)"
  by (simp add: CreatePostView_form_valid_def Post_save_def Let_def)


lemma EditPostView_dispatch_denied:
  assumes "SingleObjectMixin_get_object db pk = Inr p"
    and "is_authenticated (request_user request)"
    and "\<not> author_is (post_author p) (request_user request)"
  shows "EditPostView_dispatch db request pk form = (Redirect (blog_post_detail pk), db)"
  using assms
  by (simp add: EditPostView_dispatch_def LoginRequiredMixin_dispatch_def
      UserPassesTestMixin_dispatch_def AuthorRequiredMixin_test_func_def
      EditPostView_handle_no_permission_def)

lemma DeletePostView_dispatch_denied:
  assumes "SingleObjectMixin_get_object db pk = Inr p"
    and "is_authenticated (request_user request)"
    and "\<not> author_is (post_author p) (request_user request)"
  shows "DeletePostView_dispatch on_delete db request pk = (Forbidden, db)"
  using assms
  by (simp add: DeletePostView_dispatch_def LoginRequiredMixin_dispatch_def
      UserPassesTestMixin_dispatch_def AuthorRequiredMixin_test_func_def
      AccessMixin_handle_no_permission_def raise_def)

section \<open>What the category page lists\<close>

text \<open>
  Claim C5. For every category-page request by an unauthenticated user, the returned post
  list contains no post whose \<^verbatim>\<open>is_published\<close> flag is false. The view never reads
  the requester, so this holds for every requester: of the queryset that
  \<^verbatim>\<open>get_queryset\<close> returns, and of the page of it that is rendered.
\<close>

theorem category_page_only_published:
  "(CategoryPostListView_get_queryset db now category_slug = Inr queryset
      \<longrightarrow> (\<forall>r \<in> set queryset. post_is_published (fst r)))
   \<and> (CategoryPostListView_get db now request category_slug = Render (CategoryPage category object_list)
      \<longrightarrow> (\<forall>r \<in> set object_list. post_is_published (fst r)))"
proof (intro conjI impI ballI)
  fix r
  assume "CategoryPostListView_get_queryset db now category_slug = Inr queryset" "r \<in> set queryset"
  then have "published_filter db now (fst r)"
    by (rule CategoryPostListView_get_queryset_published)
  then show "post_is_published (fst r)" by (simp add: published_filter_def)
next
  fix r
  assume "CategoryPostListView_get db now request category_slug = Render (CategoryPage category object_list)"
    and r: "r \<in> set object_list"
  then obtain qs where q: "CategoryPostListView_get_queryset db now category_slug = Inr qs"
    and p: "paginate_queryset qs (request_page request) = Inr object_list"
    by (auto dest: CategoryPostListView_get_Render)
  from p r have "r \<in> set qs" using paginate_queryset_subset by blast
  with q have "published_filter db now (fst r)"
    by (rule CategoryPostListView_get_queryset_published)
  then show "post_is_published (fst r)" by (simp add: published_filter_def)
qed

theorem category_page_only_published_witness:
  "CategoryPostListView_get blog 50 (request_of None GET) ''news''
     = Render (CategoryPage news [(post1, Some 2)])
   \<and> list_all (\<lambda>r. post_is_published (fst r)) [(post1, Some (2::nat))]
   \<and> post2 \<in> set (Category_posts blog news) \<and> \<not> post_is_published post2"
proof -
  have g: "CategoryPostListView_get blog 50 (request_of None GET) ''news''
             = Render (CategoryPage news [(post1, Some 2)])"
    by (simp add: CategoryPostListView_get_def CategoryPostListView_get_queryset_def
        CategoryPostListView_get_category_def get_object_or_404_def get_post_queryset_def
        Category_posts_def Post_comments_def published_filter_def paginate_queryset_def
        page_number_def num_pages_def blog_defs)
  have "\<forall>r \<in> set [(post1, Some (2::nat))]. post_is_published (fst r)"
    using category_page_only_published [of blog 50 "''news''" "[]" "request_of None GET" news
        "[(post1, Some 2)]"] g by blast
  then have "list_all (\<lambda>r. post_is_published (fst r)) [(post1, Some (2::nat))]"
    by (simp only: list_all_iff)
  moreover have "post2 \<in> set (Category_posts blog news) \<and> \<not> post_is_published post2"
    by (simp add: Category_posts_def blog_defs)
  ultimately show ?thesis using g by blast
qed

section \<open>Not found\<close>

text \<open>
  Claim C8 says that every request naming a nonexistent post, a nonexistent or
  unpublished category slug, or a nonexistent username yields an HTTP 404 response. A
  view answers 404 where it looks the record up, and not every request gets that far.
  No post has key 99, yet an anonymous request to edit it is redirected to the detail
  page and one to delete it to the login page, both by \<^verbatim>\<open>LoginRequiredMixin\<close> before
  any lookup; and \<^verbatim>\<open>AddCommentView\<close> looks the post up in \<^verbatim>\<open>form_valid\<close> only, so
  bob's \<open>GET\<close> and his invalid submission get the form page.
\<close>

theorem login_gate_before_lookup_counterexample:
  "99 \<notin> set (map post_id (posts blog))
   \<and> EditPostView_dispatch blog (request_of None GET) 99 Invalid
       = (Redirect (blog_post_detail 99), blog)
   \<and> DeletePostView_dispatch CASCADE blog (request_of None POST) 99 = (Redirect login, blog)
   \<and> AddCommentView_dispatch blog (request_of (Some bob) GET) 99 Invalid = (Render FormPage, blog)
   \<and> AddCommentView_dispatch blog (request_of (Some bob) POST) 99 Invalid = (Render FormPage, blog)"
  by (simp add: EditPostView_dispatch_def DeletePostView_dispatch_def AddCommentView_dispatch_def
      LoginRequiredMixin_dispatch_def EditPostView_handle_no_permission_def
      AccessMixin_handle_no_permission_def is_authenticated_def blog_defs)

text \<open>
  Claim C8, amended. A post-detail request naming a nonexistent post, a category-page
  request naming a nonexistent or unpublished category slug, and a profile request naming
  a nonexistent username yield an HTTP 404 response; so do an edit-post or delete-post
  request by an authenticated user, and a valid add-comment submission by an authenticated
  user, that name a nonexistent post. A slug is nonexistent or unpublished when no
  category with that slug is published.
\<close>

theorem lookup_failure_yields_404:
  "((\<forall>p \<in> set (posts db). post_id p \<noteq> pk) \<longrightarrow> PostDetailView_get db now request pk = NotFound)
   \<and> ((\<forall>c \<in> set (categories db). slug c = category_slug \<longrightarrow> \<not> category_is_published c)
        \<longrightarrow> CategoryPostListView_get db now request category_slug = NotFound)
   \<and> ((\<forall>u \<in> set (users db). username u \<noteq> name)
        \<longrightarrow> ProfileView_get annotate_default db now request name = NotFound)
   \<and> ((\<forall>p \<in> set (posts db). post_id p \<noteq> pk) \<and> is_authenticated (request_user request)
        \<longrightarrow> EditPostView_dispatch db request pk post_form = (NotFound, db)
            \<and> DeletePostView_dispatch on_delete db request pk = (NotFound, db))
   \<and> ((\<forall>p \<in> set (posts db). post_id p \<noteq> pk) \<and> is_authenticated (request_user request)
        \<and> request_verb request \<in> {POST, PUT}
        \<longrightarrow> AddCommentView_dispatch db request pk (Valid comment_instance) = (NotFound, db))"
proof (intro conjI impI)
  assume "\<forall>p \<in> set (posts db). post_id p \<noteq> pk"
  then have "\<forall>r \<in> set (get_post_queryset db now (posts db) False False). \<not> post_id (fst r) = pk"
    by (auto simp: get_post_queryset_def)
  then have "get_object_or_404 (get_post_queryset db now (posts db) False False)
               (\<lambda>r. post_id (fst r) = pk) = Inl Http404"
    by (rule get_object_or_404_missing)
  then show "PostDetailView_get db now request pk = NotFound"
    by (simp add: PostDetailView_get_def PostDetailView_get_object_def)
next
  assume "\<forall>c \<in> set (categories db). slug c = category_slug \<longrightarrow> \<not> category_is_published c"
  then have "\<forall>c \<in> set (categories db). \<not> (slug c = category_slug \<and> category_is_published c)"
    by blast
  then have "CategoryPostListView_get_category db category_slug = Inl Http404"
    unfolding CategoryPostListView_get_category_def by (rule get_object_or_404_missing)
  then show "CategoryPostListView_get db now request category_slug = NotFound"
    by (simp add: CategoryPostListView_get_def CategoryPostListView_get_queryset_def)
next
  assume "\<forall>u \<in> set (users db). username u \<noteq> name"
  then have "\<forall>u \<in> set (users db). \<not> username u = name" by blast
  then have "ProfileView_get_user db name = Inl Http404"
    unfolding ProfileView_get_user_def by (rule get_object_or_404_missing)
  then show "ProfileView_get annotate_default db now request name = NotFound"
    by (simp add: ProfileView_get_def ProfileView_get_queryset_def)
next
  assume h: "(\<forall>p \<in> set (posts db). post_id p \<noteq> pk) \<and> is_authenticated (request_user request)"
  then have m: "SingleObjectMixin_get_object db pk = Inl Http404"
    by (simp add: SingleObjectMixin_get_object_missing)
  show "EditPostView_dispatch db request pk post_form = (NotFound, db)"
    using h m
    by (simp add: EditPostView_dispatch_def LoginRequiredMixin_dispatch_def
        UserPassesTestMixin_dispatch_def AuthorRequiredMixin_test_func_def raise_def)
  show "DeletePostView_dispatch on_delete db request pk = (NotFound, db)"
    using h m
    by (simp add: DeletePostView_dispatch_def LoginRequiredMixin_dispatch_def
        UserPassesTestMixin_dispatch_def AuthorRequiredMixin_test_func_def raise_def)
next
  assume h: "(\<forall>p \<in> set (posts db). post_id p \<noteq> pk) \<and> is_authenticated (request_user request)
               \<and> request_verb request \<in> {POST, PUT}"
  then have "\<forall>p \<in> set (posts db). \<not> post_id p = pk" by blast
  then have "get_object_or_404 (posts db) (\<lambda>p. post_id p = pk) = Inl Http404"
    by (rule get_object_or_404_missing)
  then have "AddCommentView_form_valid db user pk comment_instance = (NotFound, db)" for user
    by (simp add: AddCommentView_form_valid_missing)
  then show "AddCommentView_dispatch db request pk (Valid comment_instance) = (NotFound, db)"
    using h
    by (auto simp: AddCommentView_dispatch_def LoginRequiredMixin_dispatch_def
        is_authenticated_def)
qed

theorem lookup_failure_yields_404_witness:
  "list_all (\<lambda>p. post_id p \<noteq> 7) (posts blog)
   \<and> PostDetailView_get blog 50 (request_of (Some alice) GET) 7 = NotFound
   \<and> list_all (\<lambda>c. slug c \<noteq> ''drafts'' \<or> \<not> category_is_published c) (categories blog)
   \<and> CategoryPostListView_get blog 50 (request_of None GET) ''drafts'' = NotFound
   \<and> list_all (\<lambda>c. slug c \<noteq> ''sport'') (categories blog)
   \<and> CategoryPostListView_get blog 50 (request_of None GET) ''sport'' = NotFound
   \<and> list_all (\<lambda>u. username u \<noteq> ''carol'') (users blog)
   \<and> ProfileView_get True blog 50 (request_of None GET) ''carol'' = NotFound
   \<and> is_authenticated (request_user (request_of (Some alice) POST))
   \<and> EditPostView_dispatch blog (request_of (Some alice) POST) 7 (Valid post1) = (NotFound, blog)
   \<and> DeletePostView_dispatch CASCADE blog (request_of (Some alice) POST) 7 = (NotFound, blog)
   \<and> AddCommentView_dispatch blog (request_of (Some alice) POST) 7 (Valid comment1)
       = (NotFound, blog)"
proof -
  have h1: "list_all (\<lambda>p. post_id p \<noteq> 7) (posts blog)" by (simp add: blog_defs)
  have h2: "list_all (\<lambda>c. slug c \<noteq> ''drafts'' \<or> \<not> category_is_published c) (categories blog)"
    by (simp add: blog_defs)
  have h3: "list_all (\<lambda>c. slug c \<noteq> ''sport'') (categories blog)"
    by (simp add: blog_defs)
  have h4: "list_all (\<lambda>u. username u \<noteq> ''carol'') (users blog)" by (simp add: blog_defs)
  have h5: "is_authenticated (request_user (request_of (Some alice) POST))"
    and h6: "request_verb (request_of (Some alice) POST) \<in> {POST, PUT}"
    by (simp_all add: is_authenticated_def request_of_def)
  have "PostDetailView_get blog 50 (request_of (Some alice) GET) 7 = NotFound"
    using h1 lookup_failure_yields_404 [where db = blog and pk = 7 and now = 50
        and request = "request_of (Some alice) GET"]
    by (simp add: list_all_iff)
  moreover have "CategoryPostListView_get blog 50 (request_of None GET) ''drafts'' = NotFound"
    using h2 lookup_failure_yields_404 [where db = blog and now = 50
        and request = "request_of None GET" and category_slug = "''drafts''"]
    by (auto simp: list_all_iff)
  moreover have "CategoryPostListView_get blog 50 (request_of None GET) ''sport'' = NotFound"
    using h3 lookup_failure_yields_404 [where db = blog and now = 50
        and request = "request_of None GET" and category_slug = "''sport''"]
    by (auto simp: list_all_iff)
  moreover have "ProfileView_get True blog 50 (request_of None GET) ''carol'' = NotFound"
    using h4 lookup_failure_yields_404 [where db = blog and now = 50
        and request = "request_of None GET" and name = "''carol''" and annotate_default = True]
    by (auto simp: list_all_iff)
  moreover have "EditPostView_dispatch blog (request_of (Some alice) POST) 7 (Valid post1)
                   = (NotFound, blog)
                 \<and> DeletePostView_dispatch CASCADE blog (request_of (Some alice) POST) 7
                   = (NotFound, blog)"
    using h1 h5 lookup_failure_yields_404 [where db = blog and pk = 7
        and request = "request_of (Some alice) POST" and post_form = "Valid post1"
        and on_delete = CASCADE]
    by (simp add: list_all_iff)
  moreover have "AddCommentView_dispatch blog (request_of (Some alice) POST) 7 (Valid comment1)
                   = (NotFound, blog)"
    using h1 h5 h6 lookup_failure_yields_404 [where db = blog and pk = 7
        and request = "request_of (Some alice) POST" and comment_instance = comment1]
    by (simp add: list_all_iff)
  ultimately show ?thesis using h1 h2 h3 h4 h5 by blast
qed

section \<open>Who sees a hidden post\<close>

text \<open>
  Claim C4. For every post-detail request where the requesting user is not the post's
  author and the post does not satisfy the public-visibility predicate (its own
  \<^verbatim>\<open>is_published\<close> flag, its category's flag, and a publication date that is not in
  the future), the response is HTTP 404. The requester may be anonymous. Primary keys are
  unique in the table, as the database keeps them.
\<close>

theorem hidden_post_is_404:
  assumes "distinct (map post_id (posts db))"
    and "p \<in> set (posts db)"
    and "\<not> author_is (post_author p) (request_user request)"
    and "\<not> published_filter db now p"
  shows "PostDetailView_get db now request (post_id p) = NotFound"
proof -
  have "\<forall>r \<in> set (get_post_queryset db now (posts db) True False). \<not> post_id (fst r) = post_id p"
  proof (intro ballI notI)
    fix r
    assume r: "r \<in> set (get_post_queryset db now (posts db) True False)"
      and k: "post_id (fst r) = post_id p"
    from r have vis: "published_filter db now (fst r)" by (rule get_post_queryset_published)
    from r have "fst r \<in> set (posts db)" by (auto simp: get_post_queryset_def)
    then have "fst r = p" using k by (rule same_key_same_row [OF assms(1,2)])
    with vis assms(4) show False by simp
  qed
  then have "get_object_or_404 (get_post_queryset db now (posts db) True False)
               (\<lambda>r. post_id (fst r) = post_id p) = Inl Http404"
    by (rule get_object_or_404_missing)
  then show ?thesis
    using assms(3) first_lookup_unique [OF assms(1,2), of now]
    by (simp add: PostDetailView_get_def PostDetailView_get_object_def)
qed

theorem hidden_post_is_404_witness:
  "distinct (map post_id (posts blog))
   \<and> post2 \<in> set (posts blog) \<and> \<not> author_is (post_author post2) (Some bob)
   \<and> \<not> post_is_published post2
   \<and> PostDetailView_get blog 50 (request_of (Some bob) GET) 2 = NotFound
   \<and> post3 \<in> set (posts blog) \<and> \<not> published_filter blog 50 post3
   \<and> PostDetailView_get blog 50 (request_of None GET) 3 = NotFound
   \<and> post4 \<in> set (posts blog) \<and> 50 < pub_date post4
   \<and> PostDetailView_get blog 50 (request_of (Some alice) GET) 4 = NotFound"
proof -
  have d: "distinct (map post_id (posts blog))" by (simp add: blog_defs)
  have m2: "post2 \<in> set (posts blog)" and m3: "post3 \<in> set (posts blog)"
    and m4: "post4 \<in> set (posts blog)" by (simp_all add: blog_defs)
  have a2: "\<not> author_is (post_author post2) (request_user (request_of (Some bob) GET))"
    by (simp add: author_is_def blog_defs)
  have a3: "\<not> author_is (post_author post3) (request_user (request_of None GET))"
    by (simp add: author_is_def blog_defs)
  have a4: "\<not> author_is (post_author post4) (request_user (request_of (Some alice) GET))"
    by (simp add: author_is_def blog_defs)
  have v2: "\<not> published_filter blog 50 post2" by (simp add: published_filter_def blog_defs)
  have v3: "\<not> published_filter blog 50 post3" by (simp add: published_filter_def blog_defs)
  have v4: "\<not> published_filter blog 50 post4" by (simp add: published_filter_def blog_defs)
  have "PostDetailView_get blog 50 (request_of (Some bob) GET) (post_id post2) = NotFound"
    using hidden_post_is_404 [OF d m2 a2 v2] .
  moreover have "PostDetailView_get blog 50 (request_of None GET) (post_id post3) = NotFound"
    using hidden_post_is_404 [OF d m3 a3 v3] .
  moreover have "PostDetailView_get blog 50 (request_of (Some alice) GET) (post_id post4) = NotFound"
    using hidden_post_is_404 [OF d m4 a4 v4] .
  ultimately show ?thesis
    using d m2 m3 m4 v3 by (simp add: author_is_def blog_defs)
qed

text \<open>
  Claim C2. For every post-detail request and every profile request where the requesting
  user is the post's author, the post is returned even when its \<^verbatim>\<open>is_published\<close>
  flag is false, its category is unpublished, or its publication date is in the future.
  Nothing is assumed of the three: the detail page renders the post, the queryset of
  the author's own profile page contains it, and so does one of that page's pages. The
  profile is the one of the post's author, whose posts it lists; usernames are unique.
\<close>

theorem author_sees_own_post:
  assumes "p \<in> set (posts db)"
    and "author_is (post_author p) (request_user request)"
  shows "(distinct (map post_id (posts db)) \<longrightarrow>
            PostDetailView_get db now request (post_id p)
              = Render (DetailPage p (PostDetailView_get_context_data db p)))
       \<and> (distinct (map username (users db)) \<and> profile \<in> set (users db)
            \<and> user_id profile = post_author p \<longrightarrow>
            (\<exists>queryset. ProfileView_get_queryset annotate_default db now request (username profile)
                          = Inr queryset
                        \<and> p \<in> fst ` set queryset)
            \<and> (\<exists>n object_list comment_count.
                  ProfileView_get annotate_default db now
                      (request\<lparr>request_page := PageNumber n\<rparr>) (username profile)
                    = Render (ProfilePage profile object_list comment_count)
                  \<and> p \<in> fst ` set object_list))"
proof (intro conjI impI)
  assume d: "distinct (map post_id (posts db))"
  show "PostDetailView_get db now request (post_id p)
          = Render (DetailPage p (PostDetailView_get_context_data db p))"
    using assms(2) first_lookup_unique [OF d assms(1), of now]
    by (simp add: PostDetailView_get_def PostDetailView_get_object_def)
next
  assume h: "distinct (map username (users db)) \<and> profile \<in> set (users db)
               \<and> user_id profile = post_author p"
  then have u: "ProfileView_get_user db (username profile) = Inr profile"
    by (simp add: ProfileView_get_user_unique)
  have own: "author_is (user_id profile) (request_user request)"
    using h assms(2) by simp
  then have auth: "is_authenticated (request_user request)"
    by (auto simp: author_is_def is_authenticated_def split: option.splits)
  let ?qs = "get_post_queryset db now (User_posts db profile) False annotate_default"
  have q: "ProfileView_get_queryset annotate_default db now request' (username profile) = Inr ?qs"
    if "request_user request' = request_user request" for request'
    using u own auth that by (simp add: ProfileView_get_queryset_def)
  have "p \<in> set (User_posts db profile)"
    using assms(1) h by (simp add: User_posts_def)
  then have mem: "p \<in> fst ` set ?qs" by (simp add: get_post_queryset_all)
  show "\<exists>queryset. ProfileView_get_queryset annotate_default db now request (username profile)
                      = Inr queryset
                    \<and> p \<in> fst ` set queryset"
    using q [of request] mem by blast
  from mem obtain r where r: "r \<in> set ?qs" and fr: "fst r = p" by auto
  from paginate_queryset_covers [OF r] obtain n object_list where
    pg: "paginate_queryset ?qs (PageNumber n) = Inr object_list" and ro: "r \<in> set object_list"
    by blast
  let ?request = "request\<lparr>request_page := PageNumber n\<rparr>"
  have "ProfileView_get annotate_default db now ?request (username profile)
          = Render (ProfilePage profile object_list
              (Sum_aggregate (Count_annotate db comment_is_published (User_posts db profile))))"
    using q [of ?request] pg u by (simp add: ProfileView_get_def ProfileView_get_context_data_def)
  moreover have "p \<in> fst ` set object_list" using imageI [OF ro, of fst] fr by simp
  ultimately show "\<exists>n object_list comment_count.
      ProfileView_get annotate_default db now (request\<lparr>request_page := PageNumber n\<rparr>)
          (username profile)
        = Render (ProfilePage profile object_list comment_count)
      \<and> p \<in> fst ` set object_list"
    by blast
qed

theorem author_sees_own_post_witness:
  "\<not> post_is_published post2
   \<and> PostDetailView_get blog 50 (request_of (Some alice) GET) 2
       = Render (DetailPage post2 [comment3])
   \<and> \<not> published_filter blog 50 post3
   \<and> PostDetailView_get blog 50 (request_of (Some bob) GET) 3 = Render (DetailPage post3 [])
   \<and> 50 < pub_date post4
   \<and> PostDetailView_get blog 50 (request_of (Some bob) GET) 4 = Render (DetailPage post4 [])
   \<and> ProfileView_get_queryset True blog 50 (request_of (Some alice) GET) ''alice''
       = Inr [(post1, Some 2), (post2, Some 1)]
   \<and> post2 \<in> fst ` set [(post1, Some (2::nat)), (post2, Some 1)]"
proof -
  have d: "distinct (map post_id (posts blog))" by (simp add: blog_defs)
  have du: "distinct (map username (users blog))" by (simp add: blog_defs)
  have m2: "post2 \<in> set (posts blog)" and m3: "post3 \<in> set (posts blog)"
    and m4: "post4 \<in> set (posts blog)" by (simp_all add: blog_defs)
  have a2: "author_is (post_author post2) (request_user (request_of (Some alice) GET))"
    by (simp add: author_is_def blog_defs)
  have a3: "author_is (post_author post3) (request_user (request_of (Some bob) GET))"
    by (simp add: author_is_def blog_defs)
  have a4: "author_is (post_author post4) (request_user (request_of (Some bob) GET))"
    by (simp add: author_is_def blog_defs)
  have "PostDetailView_get blog 50 (request_of (Some alice) GET) (post_id post2)
          = Render (DetailPage post2 (PostDetailView_get_context_data blog post2))"
    using author_sees_own_post [OF m2 a2, of 50] d by blast
  then have r2: "PostDetailView_get blog 50 (request_of (Some alice) GET) 2
                   = Render (DetailPage post2 [comment3])"
    by (simp add: PostDetailView_get_context_data_def Post_comments_def blog_defs)
  have "PostDetailView_get blog 50 (request_of (Some bob) GET) (post_id post3)
          = Render (DetailPage post3 (PostDetailView_get_context_data blog post3))"
    using author_sees_own_post [OF m3 a3, of 50] d by blast
  then have r3: "PostDetailView_get blog 50 (request_of (Some bob) GET) 3
                   = Render (DetailPage post3 [])"
    by (simp add: PostDetailView_get_context_data_def Post_comments_def blog_defs)
  have "PostDetailView_get blog 50 (request_of (Some bob) GET) (post_id post4)
          = Render (DetailPage post4 (PostDetailView_get_context_data blog post4))"
    using author_sees_own_post [OF m4 a4, of 50] d by blast
  then have r4: "PostDetailView_get blog 50 (request_of (Some bob) GET) 4
                   = Render (DetailPage post4 [])"
    by (simp add: PostDetailView_get_context_data_def Post_comments_def blog_defs)
  have pr: "ProfileView_get_queryset True blog 50 (request_of (Some alice) GET) ''alice''
              = Inr [(post1, Some 2), (post2, Some 1)]"
    by (simp add: ProfileView_get_queryset_def ProfileView_get_user_def get_object_or_404_def
        get_post_queryset_def User_posts_def Post_comments_def is_authenticated_def author_is_def
        blog_defs)
  have "alice \<in> set (users blog)" and "user_id alice = post_author post2"
    and "username alice = ''alice''"
    by (simp_all add: blog_defs)
  then have "\<exists>queryset. ProfileView_get_queryset True blog 50 (request_of (Some alice) GET) ''alice''
                          = Inr queryset
                        \<and> post2 \<in> fst ` set queryset"
    using author_sees_own_post [OF m2 a2, where profile = alice and annotate_default = True
        and now = 50] du by simp
  then have mem: "post2 \<in> fst ` set [(post1, Some (2::nat)), (post2, Some 1)]"
    using pr by simp
  have "\<not> post_is_published post2" "\<not> published_filter blog 50 post3" "50 < pub_date post4"
    by (simp_all add: published_filter_def blog_defs)
  then show ?thesis using r2 r3 r4 pr mem by blast
qed

section \<open>The comments of the detail page\<close>

text \<open>
  Claim C3 says that a comment's author finds their own comments in the rendered list
  even when the comments are unpublished. The view filters the list by
  \<^verbatim>\<open>is_published=True\<close> and nothing else: bob, who wrote the unpublished comment 2 on
  post 1, gets the page of post 1 without it.
\<close>

theorem unpublished_own_comment_hidden:
  "PostDetailView_get blog 50 (request_of (Some bob) GET) 1 = Render (DetailPage post1 [comment1])
   \<and> comment2 \<in> set (comments blog)
   \<and> comment_post comment2 = post_id post1
   \<and> author_is (comment_author comment2) (request_user (request_of (Some bob) GET))
   \<and> \<not> comment_is_published comment2
   \<and> comment2 \<notin> set [comment1]"
  by (simp add: PostDetailView_get_def PostDetailView_get_object_def
      PostDetailView_get_context_data_def get_object_or_404_def get_post_queryset_def
      Post_comments_def published_filter_def author_is_def blog_defs)

text \<open>
  Claim C3, amended. For every post-detail request, whoever sends it, the rendered
  comment list is the post's comments whose \<^verbatim>\<open>is_published\<close> flag is true, in table
  order; a comment whose flag is false is not in the list, also not for its author.
\<close>

theorem detail_page_lists_published_comments:
  assumes "PostDetailView_get db now request pk = Render (DetailPage post comment_list)"
  shows "comment_list
           = filter (\<lambda>c. comment_post c = post_id post \<and> comment_is_published c) (comments db)
         \<and> (\<forall>c \<in> set (comments db). \<not> comment_is_published c \<longrightarrow> c \<notin> set comment_list)"
proof -
  from assms have "comment_list = PostDetailView_get_context_data db post"
    by (auto dest: PostDetailView_get_Render)
  then have eq: "comment_list
      = filter (\<lambda>c. comment_post c = post_id post \<and> comment_is_published c) (comments db)"
    by (simp add: PostDetailView_get_context_data_def Post_comments_def conj_commute)
  then show ?thesis by simp
qed

theorem detail_page_lists_published_comments_witness:
  "PostDetailView_get blog 50 (request_of (Some bob) GET) 1 = Render (DetailPage post1 [comment1])
   \<and> [comment1] = filter (\<lambda>c. comment_post c = post_id post1 \<and> comment_is_published c)
                      (comments blog)
   \<and> comment2 \<in> set (comments blog) \<and> \<not> comment_is_published comment2
   \<and> comment2 \<notin> set [comment1]"
proof -
  have g: "PostDetailView_get blog 50 (request_of (Some bob) GET) 1
             = Render (DetailPage post1 [comment1])"
    by (simp add: PostDetailView_get_def PostDetailView_get_object_def
        PostDetailView_get_context_data_def get_object_or_404_def get_post_queryset_def
        Post_comments_def published_filter_def author_is_def blog_defs)
  have m: "comment2 \<in> set (comments blog)" and u: "\<not> comment_is_published comment2"
    by (simp_all add: blog_defs)
  from detail_page_lists_published_comments [OF g] m u show ?thesis using g by blast
qed

section \<open>The comment count of the profile page\<close>

text \<open>
  Claim C10. For every profile-page request, the \<^verbatim>\<open>comment_count\<close> of the context is
  the sum, over the profiled user's posts, of the number of comments with
  \<^verbatim>\<open>is_published=True\<close> on each post; when the user has no posts it is \<^verbatim>\<open>None\<close>
  rather than 0. The posts are all posts of the user, published or not, whoever asks.
\<close>

theorem profile_comment_count:
  assumes "ProfileView_get annotate_default db now request name
             = Render (ProfilePage profile object_list comment_count)"
  shows "profile \<in> set (users db) \<and> username profile = name
         \<and> comment_count
             = (let user_posts = filter (\<lambda>p. post_author p = user_id profile) (posts db)
                in if user_posts = [] then None
                   else Some (\<Sum>p\<leftarrow>user_posts.
                          length (filter (\<lambda>c. comment_post c = post_id p \<and> comment_is_published c)
                                    (comments db))))"
proof -
  from assms have "ProfileView_get_context_data db name = Inr (profile, comment_count)"
    by (auto dest: ProfileView_get_Render)
  then have u: "ProfileView_get_user db name = Inr profile"
    and c: "comment_count
              = Sum_aggregate (Count_annotate db comment_is_published (User_posts db profile))"
    by (auto simp: ProfileView_get_context_data_def split: sum.splits)
  from u have "profile \<in> set (users db) \<and> username profile = name"
    unfolding ProfileView_get_user_def by (rule get_object_or_404_found)
  moreover have "filter comment_is_published (Post_comments db p)
                   = filter (\<lambda>c. comment_post c = post_id p \<and> comment_is_published c) (comments db)"
    for p by (simp add: Post_comments_def conj_commute)
  ultimately show ?thesis
    using c by (simp add: Sum_aggregate_Count_annotate User_posts_def Let_def)
qed

theorem profile_comment_count_witness:
  "ProfileView_get True blog 50 (request_of None GET) ''alice''
     = Render (ProfilePage alice [(post1, Some 2)] (Some 2))
   \<and> ProfileView_get True blog 50 (request_of None GET) ''bob''
     = Render (ProfilePage bob [] (Some 0))
   \<and> ProfileView_get True (blog\<lparr>posts := [post3, post4]\<rparr>) 50 (request_of None GET) ''alice''
     = Render (ProfilePage alice [] None)
   \<and> filter (\<lambda>p. post_author p = user_id alice) (posts (blog\<lparr>posts := [post3, post4]\<rparr>)) = []"
proof -
  note defs = ProfileView_get_def ProfileView_get_queryset_def ProfileView_get_user_def
    ProfileView_get_context_data_def get_object_or_404_def get_post_queryset_def User_posts_def
    Post_comments_def published_filter_def paginate_queryset_def page_number_def num_pages_def
    is_authenticated_def author_is_def Sum_aggregate_def Count_annotate_def blog_defs
  have a: "ProfileView_get True blog 50 (request_of None GET) ''alice''
             = Render (ProfilePage alice [(post1, Some 2)] (Some 2))"
    by (simp add: defs)
  have b: "ProfileView_get True blog 50 (request_of None GET) ''bob''
             = Render (ProfilePage bob [] (Some 0))"
    by (simp add: defs)
  have c: "ProfileView_get True (blog\<lparr>posts := [post3, post4]\<rparr>) 50 (request_of None GET) ''alice''
             = Render (ProfilePage alice [] None)"
    by (simp add: defs)
  have e: "filter (\<lambda>p. post_author p = user_id alice) (posts (blog\<lparr>posts := [post3, post4]\<rparr>)) = []"
    by (simp add: blog_defs)
  have "None = (let user_posts = filter (\<lambda>p. post_author p = user_id alice)
                                    (posts (blog\<lparr>posts := [post3, post4]\<rparr>))
                in if user_posts = [] then None
                   else Some (\<Sum>p\<leftarrow>user_posts.
                          length (filter (\<lambda>c. comment_post c = post_id p \<and> comment_is_published c)
                                    (comments (blog\<lparr>posts := [post3, post4]\<rparr>)))))"
    using profile_comment_count [OF c] by blast
  then show ?thesis using a b c e by blast
qed

section \<open>Who may edit and delete\<close>

text \<open>
  Claim C1. For every edit-post, delete-post, edit-comment or delete-comment request, the
  targeted post or comment is modified or deleted only if the requesting user equals that
  object's author; a request by any other user leaves the object unchanged. Stronger: a
  request that changes anything in the database comes from the author of the object the
  view resolves, so a request by anyone else, whatever its verb and form, leaves the
  whole database as it was. For the comment views this holds whatever
  \<^verbatim>\<open>CommentMixin\<close> resolves and redirects to.
\<close>

theorem mutation_only_by_author:
  "(snd (EditPostView_dispatch db request pk form) \<noteq> db \<longrightarrow>
      (\<exists>p. SingleObjectMixin_get_object db pk = Inr p \<and> p \<in> set (posts db) \<and> post_id p = pk
           \<and> author_is (post_author p) (request_user request)))
   \<and> (snd (DeletePostView_dispatch on_delete db request pk) \<noteq> db \<longrightarrow>
      (\<exists>p. SingleObjectMixin_get_object db pk = Inr p \<and> p \<in> set (posts db) \<and> post_id p = pk
           \<and> author_is (post_author p) (request_user request)))
   \<and> (snd (EditCommentView_dispatch get_object success_url db request comment_form) \<noteq> db \<longrightarrow>
      (\<exists>c. get_object db = Inr c \<and> author_is (comment_author c) (request_user request)))
   \<and> (snd (DeleteCommentView_dispatch get_object success_url db request) \<noteq> db \<longrightarrow>
      (\<exists>c. get_object db = Inr c \<and> author_is (comment_author c) (request_user request)))"
proof (intro conjI impI)
  assume "snd (EditPostView_dispatch db request pk form) \<noteq> db"
  then have "\<exists>p. SingleObjectMixin_get_object db pk = Inr p
                \<and> author_is (post_author p) (request_user request)"
    unfolding EditPostView_dispatch_def by (rule author_gate) simp_all
  then show "\<exists>p. SingleObjectMixin_get_object db pk = Inr p \<and> p \<in> set (posts db) \<and> post_id p = pk
                \<and> author_is (post_author p) (request_user request)"
    using SingleObjectMixin_get_object_found by blast
next
  assume "snd (DeletePostView_dispatch on_delete db request pk) \<noteq> db"
  then have "\<exists>p. SingleObjectMixin_get_object db pk = Inr p
                \<and> author_is (post_author p) (request_user request)"
    unfolding DeletePostView_dispatch_def by (rule author_gate) simp_all
  then show "\<exists>p. SingleObjectMixin_get_object db pk = Inr p \<and> p \<in> set (posts db) \<and> post_id p = pk
                \<and> author_is (post_author p) (request_user request)"
    using SingleObjectMixin_get_object_found by blast
next
  assume "snd (EditCommentView_dispatch get_object success_url db request comment_form) \<noteq> db"
  then show "\<exists>c. get_object db = Inr c \<and> author_is (comment_author c) (request_user request)"
    unfolding EditCommentView_dispatch_def by (rule author_gate) simp_all
next
  assume "snd (DeleteCommentView_dispatch get_object success_url db request) \<noteq> db"
  then show "\<exists>c. get_object db = Inr c \<and> author_is (comment_author c) (request_user request)"
    unfolding DeleteCommentView_dispatch_def by (rule author_gate) simp_all
qed

theorem mutation_only_by_author_witness:
  "snd (EditPostView_dispatch blog (request_of (Some bob) POST) 1 (Valid post3)) = blog
   \<and> snd (DeletePostView_dispatch CASCADE blog (request_of (Some bob) POST) 1) = blog
   \<and> snd (EditCommentView_dispatch (comment_by_pk 1) (blog_post_detail 1) blog
            (request_of (Some alice) POST) (Valid comment3)) = blog
   \<and> snd (DeleteCommentView_dispatch (comment_by_pk 1) (blog_post_detail 1) blog
            (request_of (Some alice) POST)) = blog
   \<and> snd (DeletePostView_dispatch CASCADE blog (request_of (Some alice) POST) 1) \<noteq> blog
   \<and> SingleObjectMixin_get_object blog 1 = Inr post1
   \<and> author_is (post_author post1) (request_user (request_of (Some alice) POST))
   \<and> snd (DeleteCommentView_dispatch (comment_by_pk 1) (blog_post_detail 1) blog
            (request_of (Some bob) POST)) \<noteq> blog
   \<and> comment_by_pk 1 blog = Inr comment1
   \<and> author_is (comment_author comment1) (request_user (request_of (Some bob) POST))"
proof -
  have p1: "SingleObjectMixin_get_object blog 1 = Inr post1"
    by (simp add: SingleObjectMixin_get_object_def get_object_or_404_def blog_defs)
  have c1: "comment_by_pk 1 blog = Inr comment1"
    by (simp add: comment_by_pk_def get_object_or_404_def blog_defs)
  have nb: "\<not> author_is (post_author post1) (request_user (request_of (Some bob) POST))"
    and na: "\<not> author_is (comment_author comment1) (request_user (request_of (Some alice) POST))"
    by (simp_all add: author_is_def blog_defs)
  note gate = mutation_only_by_author [of blog _ 1 "Valid post3" CASCADE "comment_by_pk 1"
      "blog_post_detail 1" "Valid comment3"]
  have e1: "snd (EditPostView_dispatch blog (request_of (Some bob) POST) 1 (Valid post3)) = blog"
    using gate [of "request_of (Some bob) POST"] p1 nb by auto
  have e2: "snd (DeletePostView_dispatch CASCADE blog (request_of (Some bob) POST) 1) = blog"
    using gate [of "request_of (Some bob) POST"] p1 nb by auto
  have e3: "snd (EditCommentView_dispatch (comment_by_pk 1) (blog_post_detail 1) blog
                  (request_of (Some alice) POST) (Valid comment3)) = blog"
    using gate [of "request_of (Some alice) POST"] c1 na by auto
  have e4: "snd (DeleteCommentView_dispatch (comment_by_pk 1) (blog_post_detail 1) blog
                  (request_of (Some alice) POST)) = blog"
    using gate [of "request_of (Some alice) POST"] c1 na by auto
  have "posts (snd (DeletePostView_dispatch CASCADE blog (request_of (Some alice) POST) 1))
          = [post2, post3, post4]"
    by (simp add: DeletePostView_dispatch_def LoginRequiredMixin_dispatch_def
        UserPassesTestMixin_dispatch_def AuthorRequiredMixin_test_func_def
        SingleObjectMixin_get_object_def get_object_or_404_def DeletePostView_post_def Post_delete_def is_authenticated_def author_is_def blog_defs)
  then have d1: "snd (DeletePostView_dispatch CASCADE blog (request_of (Some alice) POST) 1) \<noteq> blog"
    by (auto simp: blog_def)
  have "comments (snd (DeleteCommentView_dispatch (comment_by_pk 1) (blog_post_detail 1) blog
                          (request_of (Some bob) POST)))
          = [comment2, comment3]"
    by (simp add: DeleteCommentView_dispatch_def LoginRequiredMixin_dispatch_def
        UserPassesTestMixin_dispatch_def AuthorRequiredMixin_test_func_def
        comment_by_pk_def get_object_or_404_def DeleteCommentView_post_def Comment_delete_def is_authenticated_def author_is_def blog_defs)
  then have d2: "snd (DeleteCommentView_dispatch (comment_by_pk 1) (blog_post_detail 1) blog
                        (request_of (Some bob) POST)) \<noteq> blog"
    by (auto simp: blog_def)
  have a1: "author_is (post_author post1) (request_user (request_of (Some alice) POST))"
    using gate [of "request_of (Some alice) POST"] d1 p1 by auto
  have a2: "author_is (comment_author comment1) (request_user (request_of (Some bob) POST))"
    using gate [of "request_of (Some bob) POST"] d2 c1 by auto
  show ?thesis using e1 e2 e3 e4 d1 d2 p1 c1 a1 a2 by blast
qed

text \<open>
  Claim C6 says that an authenticated user who is not the author is redirected to the
  detail page whichever mutation is attempted. \<^verbatim>\<open>EditPostView\<close> overrides
  \<^verbatim>\<open>handle_no_permission\<close> to do so; \<^verbatim>\<open>DeletePostView\<close> does not, and the
  inherited one raises \<^verbatim>\<open>PermissionDenied\<close>: bob, asking to delete alice's post 1,
  gets a 403 where his request to edit it is redirected.
\<close>

theorem delete_post_by_other_user_is_403:
  "EditPostView_dispatch blog (request_of (Some bob) POST) 1 (Valid post3)
     = (Redirect (blog_post_detail 1), blog)
   \<and> DeletePostView_dispatch CASCADE blog (request_of (Some bob) POST) 1 = (Forbidden, blog)"
proof -
  have "SingleObjectMixin_get_object blog 1 = Inr post1"
    by (simp add: SingleObjectMixin_get_object_def get_object_or_404_def blog_defs)
  moreover have "is_authenticated (request_user (request_of (Some bob) POST))"
    by (simp add: is_authenticated_def request_of_def)
  moreover have "\<not> author_is (post_author post1) (request_user (request_of (Some bob) POST))"
    by (simp add: author_is_def blog_defs)
  ultimately show ?thesis
    by (simp add: EditPostView_dispatch_denied DeletePostView_dispatch_denied)
qed

section \<open>What is created\<close>

text \<open>
  Claim C9. For every successful create-post and add-comment request, the created
  object's author field equals the requesting user, regardless of any author value
  submitted in the form data. A submission by a logged-in user (with an existing post,
  for a comment) appends exactly the form's instance with the author overwritten; and
  whatever the request, the table is unchanged or grows by one row whose author is the
  requester.
\<close>

theorem created_author_is_requester:
  "(request_user request = Some user \<and> request_verb request \<in> {POST, PUT} \<longrightarrow>
      CreatePostView_dispatch db request (Valid post_instance)
        = (Redirect (blog_profile (username user)),
           db\<lparr>posts := posts db
                 @ [post_instance\<lparr>post_author := user_id user,
                                 post_id := next_pk (map post_id (posts db))\<rparr>]\<rparr>))
   \<and> (request_user request = Some user \<and> request_verb request \<in> {POST, PUT}
        \<and> get_object_or_404 (posts db) (\<lambda>p. post_id p = pk) = Inr post \<longrightarrow>
      AddCommentView_dispatch db request pk (Valid comment_instance)
        = (Redirect (blog_post_detail pk),
           db\<lparr>comments := comments db
                 @ [comment_instance\<lparr>comment_post := pk, comment_author := user_id user,
                                    comment_id := next_pk (map comment_id (comments db))\<rparr>]\<rparr>))
   \<and> (posts (snd (CreatePostView_dispatch db request post_form)) = posts db
        \<or> (\<exists>p. posts (snd (CreatePostView_dispatch db request post_form)) = posts db @ [p]
               \<and> author_is (post_author p) (request_user request)))
   \<and> (comments (snd (AddCommentView_dispatch db request pk comment_form)) = comments db
        \<or> (\<exists>c. comments (snd (AddCommentView_dispatch db request pk comment_form))
                 = comments db @ [c]
               \<and> author_is (comment_author c) (request_user request)))"
proof (intro conjI impI)
  assume "request_user request = Some user \<and> request_verb request \<in> {POST, PUT}"
  then show "CreatePostView_dispatch db request (Valid post_instance)
        = (Redirect (blog_profile (username user)),
           db\<lparr>posts := posts db
                 @ [post_instance\<lparr>post_author := user_id user,
                                 post_id := next_pk (map post_id (posts db))\<rparr>]\<rparr>)"
    by (auto simp: CreatePostView_dispatch_def LoginRequiredMixin_dispatch_def
        is_authenticated_def CreatePostView_form_valid_eq)
next
  assume "request_user request = Some user \<and> request_verb request \<in> {POST, PUT}
        \<and> get_object_or_404 (posts db) (\<lambda>p. post_id p = pk) = Inr post"
  then show "AddCommentView_dispatch db request pk (Valid comment_instance)
        = (Redirect (blog_post_detail pk),
           db\<lparr>comments := comments db
                 @ [comment_instance\<lparr>comment_post := pk, comment_author := user_id user,
                                    comment_id := next_pk (map comment_id (comments db))\<rparr>]\<rparr>)"
    by (auto simp: AddCommentView_dispatch_def LoginRequiredMixin_dispatch_def
        is_authenticated_def AddCommentView_form_valid_ok)
next
  show "posts (snd (CreatePostView_dispatch db request post_form)) = posts db
        \<or> (\<exists>p. posts (snd (CreatePostView_dispatch db request post_form)) = posts db @ [p]
               \<and> author_is (post_author p) (request_user request))"
    by (auto simp: CreatePostView_dispatch_def LoginRequiredMixin_dispatch_def
        is_authenticated_def CreatePostView_form_valid_eq author_is_def
        split: option.splits Verb.splits Form.splits)
next
  show "comments (snd (AddCommentView_dispatch db request pk comment_form)) = comments db
        \<or> (\<exists>c. comments (snd (AddCommentView_dispatch db request pk comment_form))
                 = comments db @ [c]
               \<and> author_is (comment_author c) (request_user request))"
  proof (cases "get_object_or_404 (posts db) (\<lambda>p. post_id p = pk)")
    case (Inl e)
    then show ?thesis
      by (auto simp: AddCommentView_dispatch_def LoginRequiredMixin_dispatch_def
          is_authenticated_def AddCommentView_form_valid_missing
          split: option.splits Verb.splits Form.splits)
  next
    case (Inr post)
    then show ?thesis
      by (auto simp: AddCommentView_dispatch_def LoginRequiredMixin_dispatch_def
          is_authenticated_def AddCommentView_form_valid_ok author_is_def
          split: option.splits Verb.splits Form.splits)
  qed
qed

theorem created_author_is_requester_witness:
  "post_author post1 \<noteq> user_id bob
   \<and> CreatePostView_dispatch blog (request_of (Some bob) POST) (Valid post1)
       = (Redirect (blog_profile ''bob''),
          blog\<lparr>posts := posts blog @ [post1\<lparr>post_author := 2, post_id := 5\<rparr>]\<rparr>)
   \<and> comment_author comment3 \<noteq> user_id bob
   \<and> AddCommentView_dispatch blog (request_of (Some bob) POST) 1 (Valid comment3)
       = (Redirect (blog_post_detail 1),
          blog\<lparr>comments := comments blog
                  @ [comment3\<lparr>comment_post := 1, comment_author := 2, comment_id := 4\<rparr>]\<rparr>)"
proof -
  have u: "request_user (request_of (Some bob) POST) = Some bob
           \<and> request_verb (request_of (Some bob) POST) \<in> {POST, PUT}"
    by (simp add: request_of_def)
  have l: "get_object_or_404 (posts blog) (\<lambda>p. post_id p = 1) = Inr post1"
    by (simp add: get_object_or_404_def blog_defs)
  have n1: "next_pk (map post_id (posts blog)) = 5"
    and n2: "next_pk (map comment_id (comments blog)) = 4"
    and b: "user_id bob = 2" "username bob = ''bob''"
    by (simp_all add: next_pk_def blog_defs)
  have "CreatePostView_dispatch blog (request_of (Some bob) POST) (Valid post1)
          = (Redirect (blog_profile (username bob)),
             blog\<lparr>posts := posts blog
                     @ [post1\<lparr>post_author := user_id bob,
                               post_id := next_pk (map post_id (posts blog))\<rparr>]\<rparr>)"
    using created_author_is_requester [of "request_of (Some bob) POST" bob blog post1] u
    by blast
  moreover have "AddCommentView_dispatch blog (request_of (Some bob) POST) 1 (Valid comment3)
          = (Redirect (blog_post_detail 1),
             blog\<lparr>comments := comments blog
                     @ [comment3\<lparr>comment_post := 1, comment_author := user_id bob,
                                 comment_id := next_pk (map comment_id (comments blog))\<rparr>]\<rparr>)"
    using created_author_is_requester [of "request_of (Some bob) POST" bob blog _ 1 post1 comment3]
      u l by blast
  moreover have "post_author post1 \<noteq> user_id bob" "comment_author comment3 \<noteq> user_id bob"
    by (simp_all add: blog_defs)
  ultimately show ?thesis by (simp add: n1 n2 b)
qed




end
